theory Spec2Isabelle
  imports Complex_Main
begin

section \<open>Numeric conventions\<close>

text \<open>
  The scripts compute with Python floats and numpy float64 arrays. Here a finite float is
  idealised as an exact real number (rounding and overflow are left out), and the two
  division behaviours of the source are kept apart:
  \<^item> division of Python scalars (\<^verbatim>\<open>(zmax-zmin)/Nz/c\<close>) raises \<^verbatim>\<open>ZeroDivisionError\<close> on a
    zero divisor;
  \<^item> division of a numpy array by a scalar (\<^verbatim>\<open>(z-ramp_start)/ramp_length\<close>) never raises:
    a zero divisor gives \<^verbatim>\<open>inf\<close>, \<^verbatim>\<open>-inf\<close> or \<^verbatim>\<open>nan\<close> element by element.
  One value of the scripts is read through its rounding: the quotient
  \<^verbatim>\<open>T_interact/sim.dt\<close> that \<^verbatim>\<open>int\<close> truncates. It is not computed from exact reals; the
  double that the division returns is an argument of the model (see \<open>lwfa_N_step\<close>).
\<close>

datatype py_error = ZeroDivisionError | IndexError | OverflowError | ValueError

text \<open>An element of a numpy float64 array: a finite value or one of the IEEE specials.\<close>

datatype fval = Fin real | PInf | NInf | NaN

fun is_finite :: "fval \<Rightarrow> bool" where
  "is_finite (Fin v) = True"
| "is_finite PInf = False"
| "is_finite NInf = False"
| "is_finite NaN = False"

text \<open>Python scalar division \<^verbatim>\<open>x / y\<close> on floats.\<close>

definition truediv :: "real \<Rightarrow> real \<Rightarrow> py_error + real" where
  "truediv x y = (if y = 0 then Inl ZeroDivisionError else Inr (x / y))"

text \<open>numpy element division \<^verbatim>\<open>x / y\<close> (the divisor \<open>+0.0\<close>; signed zeros are left out).\<close>

definition np_div :: "real \<Rightarrow> real \<Rightarrow> fval" where
  "np_div x y =
     (if y \<noteq> 0 then Fin (x / y)
      else if 0 < x then PInf
      else if x < 0 then NInf
      else NaN)"

text \<open>
  Python \<^verbatim>\<open>int(x)\<close> on a float: truncation toward zero of a finite value,
  \<^verbatim>\<open>OverflowError\<close> on an infinity, \<^verbatim>\<open>ValueError\<close> on \<^verbatim>\<open>nan\<close>.
\<close>

definition py_int :: "real \<Rightarrow> int" where
  "py_int x = (if 0 \<le> x then \<lfloor>x\<rfloor> else \<lceil>x\<rceil>)"

fun int_of_float :: "fval \<Rightarrow> py_error + int" where
  "int_of_float (Fin x) = Inr (py_int x)"
| "int_of_float PInf = Inl OverflowError"
| "int_of_float NInf = Inl OverflowError"
| "int_of_float NaN = Inl ValueError"

text \<open>\<^verbatim>\<open>scipy.constants.c\<close>, the speed of light in vacuum (metres per second).\<close>

definition c :: real where
  "c = 299792458"

section \<open>numpy array operations used by the scripts\<close>

text \<open>\<^verbatim>\<open>np.ones_like(z)\<close> for a one-dimensional float array.\<close>

definition ones_like :: "real list \<Rightarrow> fval list" where
  "ones_like z = map (\<lambda>_. Fin 1) z"

text \<open>
  \<^verbatim>\<open>np.where(cond, a, b)\<close> on arrays of one shape: element by element, \<open>a\<close> where the
  condition holds and \<open>b\<close> elsewhere. A scalar argument is broadcast by the caller
  (\<open>broadcast\<close>).
\<close>

definition np_where :: "bool list \<Rightarrow> fval list \<Rightarrow> fval list \<Rightarrow> fval list" where
  "np_where cond a b = map (\<lambda>(t, x, y). if t then x else y) (zip cond (zip a b))"

definition broadcast :: "real list \<Rightarrow> fval \<Rightarrow> fval list" where
  "broadcast z v = map (\<lambda>_. v) z"

text \<open>
  \<^verbatim>\<open>np.array([a, b]).T.flatten()\<close> for two one-dimensional arrays of one length: the
  2 x n array is transposed to n x 2 and read row by row.
\<close>

definition flatten :: "'a list list \<Rightarrow> 'a list" where
  "flatten rows = concat rows"

section \<open>extract_energy_histogram.py: the staircase expansion\<close>

text \<open>
  \<^verbatim>\<open>x_axis = np.array([edges[:-1], edges[1:]]).T.flatten()\<close>
  \<^verbatim>\<open>y_axis = np.array([counts, counts]).T.flatten()\<close>
  The slices \<^verbatim>\<open>edges[:-1]\<close> and \<^verbatim>\<open>edges[1:]\<close> are \<open>butlast\<close> and \<open>tl\<close>; both are
  empty on an empty array, as in Python.
\<close>

definition x_axis :: "real list \<Rightarrow> real list" where
  "x_axis edges = flatten (transpose [butlast edges, tl edges])"

definition y_axis :: "real list \<Rightarrow> real list" where
  "y_axis counts = flatten (transpose [counts, counts])"

section \<open>The density profiles\<close>

text \<open>
  lwfa_script.py, \<^verbatim>\<open>dens_func(z, r)\<close>: the single-sided ramp. \<open>ramp_start\<close> and
  \<open>ramp_length\<close> are the module constants of the script; \<open>z\<close> and \<open>r\<close> are the arrays the
  particle loader passes in. The argument \<open>r\<close> is never read.
  \<^verbatim>\<open>
    n = np.ones_like(z)
    n = np.where( z<ramp_start+ramp_length, (z-ramp_start)/ramp_length, n )
    n = np.where( z<ramp_start, 0., n )
  \<close>
\<close>

definition lwfa_dens_func :: "real \<Rightarrow> real \<Rightarrow> real list \<Rightarrow> real list \<Rightarrow> fval list" where
  "lwfa_dens_func ramp_start ramp_length z r =
     (let n = ones_like z;
          n = np_where (map (\<lambda>x. x < ramp_start + ramp_length) z)
                (map (\<lambda>x. np_div (x - ramp_start) ramp_length) z) n;
          n = np_where (map (\<lambda>x. x < ramp_start) z) (broadcast z (Fin 0)) n
      in n)"

text \<open>
  calder_experiment.py, \<^verbatim>\<open>dens_func(z, r)\<close>. The script configures \<open>z1\<close>, \<open>z2\<close> and \<open>z4\<close>;
  the assignment of \<open>z3\<close> and the line of the falling ramp are commented out in the source
  and so are no part of the function.
  \<^verbatim>\<open>
    n = np.ones_like(z)
    n = np.where( z<z2, (z-z1)/(z2-z1), n )
    n = np.where( z<z1, 0., n )
    n = np.where( z>z4, 0., n )
  \<close>
\<close>

definition calder_dens_func :: "real \<Rightarrow> real \<Rightarrow> real \<Rightarrow> real list \<Rightarrow> real list \<Rightarrow> fval list" where
  "calder_dens_func z1 z2 z4 z r =
     (let n = ones_like z;
          n = np_where (map (\<lambda>x. x < z2) z) (map (\<lambda>x. np_div (x - z1) (z2 - z1)) z) n;
          n = np_where (map (\<lambda>x. x < z1) z) (broadcast z (Fin 0)) n;
          n = np_where (map (\<lambda>x. z4 < x) z) (broadcast z (Fin 0)) n
      in n)"

text \<open>
  The double-sided ramp in the words of the specification (section 4.2): linear rise from
  \<open>z1\<close> to \<open>z2\<close>, flat plateau from \<open>z2\<close> to \<open>z3\<close>, linear fall from \<open>z3\<close> to \<open>z4\<close>, zero
  outside \<open>[z1, z4]\<close>. It is compared with \<open>calder_dens_func\<close> below.
\<close>

definition spec_double_ramp :: "real \<Rightarrow> real \<Rightarrow> real \<Rightarrow> real \<Rightarrow> real \<Rightarrow> real" where
  "spec_double_ramp z1 z2 z3 z4 z =
     (if z < z1 \<or> z4 < z then 0
      else if z < z2 then (z - z1) / (z2 - z1)
      else if z \<le> z3 then 1
      else (z4 - z) / (z4 - z3))"

section \<open>The run configuration\<close>

text \<open>
  The module constants of lwfa_script.py and calder_experiment.py that the run logic
  reads. Both scripts use the same names. Python integers are \<open>int\<close>, floats are \<open>real\<close>,
  the flags are the literals \<^verbatim>\<open>True\<close> and \<^verbatim>\<open>False\<close>.
\<close>

record config =
  Nz :: int
  zmax :: real
  zmin :: real
  Nr :: int
  rmax :: real
  Nm :: int
  v_window :: real
  diag_period :: int
  save_checkpoints :: bool
  checkpoint_period :: int
  use_restart :: bool
  track_electrons :: bool

text \<open>calder_experiment.py also fixes the number of iterations: \<^verbatim>\<open>N_step = 130400\<close>.\<close>

record calder_config = config +
  N_step :: int

text \<open>The constants as the two scripts set them.\<close>

definition lwfa_constants :: config where
  "lwfa_constants =
     \<lparr>Nz = 4096, zmax = 30 / 10 ^ 6, zmin = - 70 / 10 ^ 6, Nr = 256, rmax = 30 / 10 ^ 6,
      Nm = 2, v_window = c, diag_period = 100, save_checkpoints = False,
      checkpoint_period = 200, use_restart = False, track_electrons = True\<rparr>"

definition calder_constants :: calder_config where
  "calder_constants =
     \<lparr>Nz = 5000, zmax = 20 / 10 ^ 6, zmin = - 4111 / 10 ^ 8, Nr = 600, rmax = 11459 / 10 ^ 8,
      Nm = 7, v_window = c, diag_period = 100, save_checkpoints = False,
      checkpoint_period = 50, use_restart = False, track_electrons = False,
      N_step = 130400\<rparr>"

text \<open>
  \<^verbatim>\<open>dt = (zmax-zmin)/Nz/c\<close>, the same line in both scripts. \<open>Nz\<close> is a Python integer, so
  the first division raises when \<open>Nz\<close> is 0.
\<close>

definition dt :: "'a config_scheme \<Rightarrow> py_error + real" where
  "dt cfg =
     (case truediv (zmax cfg - zmin cfg) (real_of_int (Nz cfg)) of
        Inl e \<Rightarrow> Inl e
      | Inr q \<Rightarrow> truediv q c)"

text \<open>
  The timestep in the words of the specification (section 4.1):
  \<open>dt = (zmax - zmin) / Nz / c\<close>.
\<close>

definition spec_dt :: "real \<Rightarrow> real \<Rightarrow> int \<Rightarrow> real" where
  "spec_dt zmin' zmax' Nz' = (zmax' - zmin') / real_of_int Nz' / c"

text \<open>
  lwfa_script.py:
  \<^verbatim>\<open>L_interact = 900.e-6 - (zmax - zmin)\<close>
  \<^verbatim>\<open>T_interact = ( L_interact + (zmax-zmin) ) / v_window\<close>
\<close>

definition L_interact :: "'a config_scheme \<Rightarrow> real" where
  "L_interact cfg = 900 / 10 ^ 6 - (zmax cfg - zmin cfg)"

definition T_interact :: "'a config_scheme \<Rightarrow> py_error + real" where
  "T_interact cfg = truediv (L_interact cfg + (zmax cfg - zmin cfg)) (v_window cfg)"

text \<open>
  lwfa_script.py: \<^verbatim>\<open>N_step = int(T_interact/sim.dt)\<close>, where \<open>sim.dt\<close> is the timestep the
  \<open>Simulation\<close> object was built with. The division is one of Python floats: it raises
  \<^verbatim>\<open>ZeroDivisionError\<close> when the double \<open>sim.dt\<close> is 0 and returns the IEEE quotient
  otherwise, a finite double or \<^verbatim>\<open>inf\<close>, \<^verbatim>\<open>-inf\<close> or \<^verbatim>\<open>nan\<close>. The doubles the script holds
  differ from the exact values \<open>T_interact cfg\<close> and \<open>dt cfg\<close> by rounding, and the integer
  part of their quotient depends on that rounding. So the outcome of the division is not
  computed here: it is the argument \<open>quot\<close> of \<open>lwfa_N_step\<close> and of \<open>lwfa_script\<close>, an
  exception or a float, and what is proved of them holds for every outcome.
\<close>

definition lwfa_N_step :: "py_error + fval \<Rightarrow> py_error + int" where
  "lwfa_N_step quot =
     (case quot of
        Inl e \<Rightarrow> Inl e
      | Inr x \<Rightarrow> int_of_float x)"

text \<open>
  The quotient in the script's own configuration: evaluated on IEEE doubles, lines 58,
  103, 106 and 155 of lwfa_script.py give \<^verbatim>\<open>36864.00000000001\<close>, the double
  \<open>36864 + 1 / 2 ^ 37\<close>, where the exact quotient is 36864.
\<close>

definition lwfa_constants_quotient :: "py_error + fval" where
  "lwfa_constants_quotient = Inr (Fin (5066549580791809 / 137438953472))"

section \<open>The run controllers\<close>

text \<open>
  The calls a script makes into the simulation engine and the plotting library, in the
  order it makes them. \<open>Simulation\<close> carries \<open>Nz\<close>, \<open>zmax\<close>, \<open>Nr\<close>, \<open>rmax\<close>, \<open>Nm\<close>, \<open>dt\<close>
  and \<open>zmin\<close>, and whether the particle parameters (\<open>p_zmin\<close> ... \<open>n_e\<close>, \<open>dens_func\<close>) are
  passed, in which case the constructor loads the plasma electrons.
\<close>

datatype call =
    Simulation int real int real int real real bool
  | GaussianLaser
  | add_laser_pulse
  | add_laser
  | add_new_species
  | track
  | restart_from_checkpoint
  | set_moving_window real
  | FieldDiagnostic int
  | ParticleDiagnostic int
  | set_periodic_checkpoint int
  | gather_grid nat
  | Plot2D
  | savefig
  | step int

text \<open>The calls that load plasma species from the density profile.\<close>

fun loads_species :: "call \<Rightarrow> bool" where
  "loads_species (Simulation _ _ _ _ _ _ _ particles) = particles"
| "loads_species add_new_species = True"
| "loads_species _ = False"

fun is_step :: "call \<Rightarrow> bool" where
  "is_step (step _) = True"
| "is_step _ = False"

text \<open>
  lwfa_script.py, the block under \<^verbatim>\<open>if __name__ == '__main__'\<close>, up to the checkpoint
  policy. The constructor is called with \<^verbatim>\<open>n_e=None\<close>; the electrons are created by
  \<^verbatim>\<open>sim.add_new_species\<close>, which stands before the restart branch.
\<close>

definition lwfa_setup :: "config \<Rightarrow> real \<Rightarrow> call list" where
  "lwfa_setup cfg dt' =
     [Simulation (Nz cfg) (zmax cfg) (Nr cfg) (rmax cfg) (Nm cfg) dt' (zmin cfg) False,
      GaussianLaser, add_laser_pulse, add_new_species]
     @ (if \<not> use_restart cfg
        then (if track_electrons cfg then [track] else [])
        else [restart_from_checkpoint])
     @ [set_moving_window (v_window cfg),
        FieldDiagnostic (diag_period cfg), ParticleDiagnostic (diag_period cfg)]
     @ (if save_checkpoints cfg then [set_periodic_checkpoint (checkpoint_period cfg)] else [])"

text \<open>
  The whole of lwfa_script.py: the calls made, and the exception that ends the script, if
  any. \<open>dt\<close> and \<open>T_interact\<close> are computed at module level, before any call; \<open>N_step\<close> after
  the setup, from the outcome \<open>quot\<close> of the division \<^verbatim>\<open>T_interact/sim.dt\<close>;
  \<^verbatim>\<open>gathered_grids[0]\<close> raises when \<open>Nm\<close> gives no mode. Every engine call is taken to
  return (see \<open>issued\<close>).
\<close>

definition lwfa_script :: "py_error + fval \<Rightarrow> config \<Rightarrow> call list \<times> py_error option" where
  "lwfa_script quot cfg =
     (case dt cfg of
        Inl e \<Rightarrow> ([], Some e)
      | Inr dt' \<Rightarrow>
         (case T_interact cfg of
            Inl e \<Rightarrow> ([], Some e)
          | Inr T \<Rightarrow>
             (case lwfa_N_step quot of
                Inl e \<Rightarrow> (lwfa_setup cfg dt', Some e)
              | Inr n \<Rightarrow>
                 (let gathered = lwfa_setup cfg dt' @ map gather_grid [0..<nat (Nm cfg)]
                  in if Nm cfg \<le> 0 then (gathered, Some IndexError)
                     else (gathered @ [Plot2D, savefig, step n], None)))))"

text \<open>
  calder_experiment.py: the constructor gets the particle parameters and \<open>dens_func\<close>, and
  \<open>N_step\<close> is a constant.
\<close>

definition calder_script :: "calder_config \<Rightarrow> call list \<times> py_error option" where
  "calder_script cfg =
     (case dt cfg of
        Inl e \<Rightarrow> ([], Some e)
      | Inr dt' \<Rightarrow>
         ([Simulation (Nz cfg) (zmax cfg) (Nr cfg) (rmax cfg) (Nm cfg) dt' (zmin cfg) True,
           add_laser]
          @ (if \<not> use_restart cfg
             then (if track_electrons cfg then [track] else [])
             else [restart_from_checkpoint])
          @ [set_moving_window (v_window cfg),
             FieldDiagnostic (diag_period cfg), ParticleDiagnostic (diag_period cfg)]
          @ (if save_checkpoints cfg then [set_periodic_checkpoint (checkpoint_period cfg)]
             else [])
          @ [step (N_step cfg)], None))"

text \<open>
  Neither script catches an exception. When the engine raises on the calls that satisfy
  \<open>raises\<close>, the calls that are made are those up to the first such call.
\<close>

fun issued :: "(call \<Rightarrow> bool) \<Rightarrow> call list \<Rightarrow> call list" where
  "issued raises [] = []"
| "issued raises (x # xs) = (if raises x then [x] else x # issued raises xs)"

section \<open>The field slice\<close>

text \<open>
  lwfa_script.py, the combination of the azimuthal modes. \<open>gathered_grids\<close> holds one grid
  per mode, \<^verbatim>\<open>for m in range(Nm)\<close>; the \<open>Er\<close> of a grid is a two-dimensional complex array,
  a list of rows. All grids come from one simulation and have one shape.
  \<^verbatim>\<open>
    Er = gathered_grids[0].Er.T.real
    for m in range(1, Nm):
        Er += 2 * gathered_grids[m].Er.T.real
  \<close>
\<close>

definition T_real :: "complex list list \<Rightarrow> real list list" where
  "T_real g = map (map Re) (transpose g)"

definition scalar_mul :: "real \<Rightarrow> real list list \<Rightarrow> real list list" where
  "scalar_mul k X = map (map (\<lambda>x. k * x)) X"

definition iadd :: "real list list \<Rightarrow> real list list \<Rightarrow> real list list" where
  "iadd X Y = map2 (map2 (\<lambda>x y. x + y)) X Y"

definition combine_Er :: "complex list list list \<Rightarrow> py_error + real list list" where
  "combine_Er gathered_grids =
     (case gathered_grids of
        [] \<Rightarrow> Inl IndexError
      | g0 # gs \<Rightarrow> Inr (foldl (\<lambda>Er g. iadd Er (scalar_mul 2 (T_real g))) (T_real g0) gs))"

section \<open>Helper lemmas\<close>

lemma flatten_transpose_pair_length:
  "length a = length b \<Longrightarrow> length (flatten (transpose [a, b])) = 2 * length a"
  by (induction a b rule: list_induct2) (simp_all add: flatten_def)

lemma flatten_transpose_pair_even:
  "length a = length b \<Longrightarrow> i < length a \<Longrightarrow> flatten (transpose [a, b]) ! (2 * i) = a ! i"
proof (induction a b arbitrary: i rule: list_induct2)
  case Nil
  then show ?case by simp
next
  case (Cons x xs y ys)
  then show ?case by (cases i) (simp_all add: flatten_def)
qed

lemma flatten_transpose_pair_odd:
  "length a = length b \<Longrightarrow> i < length a \<Longrightarrow> flatten (transpose [a, b]) ! (2 * i + 1) = b ! i"
proof (induction a b arbitrary: i rule: list_induct2)
  case Nil
  then show ?case by simp
next
  case (Cons x xs y ys)
  then show ?case by (cases i) (simp_all add: flatten_def)
qed

lemma flatten_transpose_pair_set:
  "length a = length b \<Longrightarrow> set (flatten (transpose [a, b])) = set a \<union> set b"
  by (induction a b rule: list_induct2) (auto simp: flatten_def)

lemma butlast_tl_set:
  "xs \<noteq> [] \<Longrightarrow> tl xs \<noteq> [] \<Longrightarrow> set (butlast xs) \<union> set (tl xs) = set xs"
proof (induction xs)
  case Nil
  then show ?case by simp
next
  case (Cons x xs)
  then show ?case by (cases xs) auto
qed

lemma np_where_map:
  "np_where (map f z) (map g z) (map h z) = map (\<lambda>x. if f x then g x else h x) z"
  by (induction z) (simp_all add: np_where_def)

lemma lwfa_dens_func_map:
  "lwfa_dens_func rs rl z r =
     map (\<lambda>x. if x < rs then Fin 0 else if x < rs + rl then np_div (x - rs) rl else Fin 1) z"
  by (simp add: lwfa_dens_func_def ones_like_def broadcast_def np_where_map Let_def)

lemma calder_dens_func_map:
  "calder_dens_func z1 z2 z4 z r =
     map (\<lambda>x. if z4 < x then Fin 0 else if x < z1 then Fin 0
               else if x < z2 then np_div (x - z1) (z2 - z1) else Fin 1) z"
  by (simp add: calder_dens_func_def ones_like_def broadcast_def np_where_map Let_def)

lemma lwfa_dens_func_nth:
  "i < length z \<Longrightarrow> lwfa_dens_func rs rl z r ! i =
     (if z ! i < rs then Fin 0 else if z ! i < rs + rl then np_div (z ! i - rs) rl else Fin 1)"
  by (simp add: lwfa_dens_func_map)

lemma calder_dens_func_nth:
  "i < length z \<Longrightarrow> calder_dens_func z1 z2 z4 z r ! i =
     (if z4 < z ! i then Fin 0 else if z ! i < z1 then Fin 0
      else if z ! i < z2 then np_div (z ! i - z1) (z2 - z1) else Fin 1)"
  by (simp add: calder_dens_func_map)

lemma ramp_quotient_unit:
  fixes x a b :: real
  assumes "a \<le> x" "x < b"
  shows "0 \<le> (x - a) / (b - a) \<and> (x - a) / (b - a) \<le> 1"
proof -
  have "0 < b - a" using assms by simp
  then show ?thesis using assms by (simp add: field_simps)
qed

lemma issued_subset: "set (issued raises xs) \<subseteq> set xs"
  by (induction xs) auto

lemma issued_reaches:
  "y \<in> set (issued raises (pre @ x # post)) \<Longrightarrow> y \<notin> set pre \<Longrightarrow>
   x \<in> set (issued raises (pre @ x # post))"
  by (induction pre) (auto split: if_splits)

lemma issued_step_after_track:
  assumes "xs = pre @ track # post" and "\<not> list_ex is_step pre"
    and "step n \<in> set (issued raises xs)"
  shows "track \<in> set (issued raises xs)"
proof -
  have "step n \<notin> set pre"
    using assms(2) by (auto simp: list_ex_iff)
  then show ?thesis
    using assms(1,3) issued_reaches [of "step n" raises pre track post] by simp
qed

lemma c_nonzero: "c \<noteq> 0"
  by (simp add: c_def)

lemma dt_value: "Nz cfg \<noteq> 0 \<Longrightarrow> dt cfg = Inr (spec_dt (zmin cfg) (zmax cfg) (Nz cfg))"
  by (simp add: dt_def truediv_def spec_dt_def c_nonzero)

lemma dt_raises: "Nz cfg = 0 \<Longrightarrow> dt cfg = Inl ZeroDivisionError"
  by (simp add: dt_def truediv_def)

lemma T_interact_value:
  "v_window cfg \<noteq> 0 \<Longrightarrow> T_interact cfg = Inr (900 / 10 ^ 6 / v_window cfg)"
  by (simp add: T_interact_def L_interact_def truediv_def)

lemma lwfa_script_calls:
  assumes "Nz cfg \<noteq> 0" and "v_window cfg \<noteq> 0"
  shows "\<exists>rest. fst (lwfa_script quot cfg) =
           lwfa_setup cfg (spec_dt (zmin cfg) (zmax cfg) (Nz cfg)) @ rest \<and>
           set rest \<subseteq> range gather_grid \<union> {Plot2D, savefig} \<union> range step"
proof (cases "lwfa_N_step quot")
  case (Inl e)
  then show ?thesis
    using assms by (simp add: lwfa_script_def dt_value T_interact_value)
next
  case (Inr n)
  then show ?thesis
    using assms by (auto simp: lwfa_script_def dt_value T_interact_value Let_def)
qed

lemma lwfa_script_module_error:
  "Nz cfg = 0 \<or> v_window cfg = 0 \<Longrightarrow> fst (lwfa_script quot cfg) = []"
  by (auto simp: lwfa_script_def dt_raises T_interact_def truediv_def split: sum.splits)

lemma T_real_rect:
  assumes "length g = R" and "\<forall>row \<in> set g. length row = n" and "0 < R"
  shows "T_real g = map (\<lambda>i. map (\<lambda>j. Re (g ! j ! i)) [0..<R]) [0..<n]"
proof -
  have "transpose g = map (\<lambda>i. map (\<lambda>j. g ! j ! i) [0..<length g]) [0..<n]"
    by (rule transpose_rectangle) (use assms in auto)
  then show ?thesis
    using assms by (simp add: T_real_def comp_def)
qed

lemma iadd_scalar_mul_rect:
  "iadd (map (\<lambda>i. map (\<lambda>j. a i j) [0..<R]) [0..<n])
        (scalar_mul k (map (\<lambda>i. map (\<lambda>j. b i j) [0..<R]) [0..<n])) =
     map (\<lambda>i. map (\<lambda>j. a i j + k * b i j) [0..<R]) [0..<n]"
  by (simp add: iadd_def scalar_mul_def map2_map_map comp_def)

lemma foldl_modes:
  assumes "\<forall>g \<in> set gs. length g = R \<and> (\<forall>row \<in> set g. length row = n)" and "0 < R"
  shows "foldl (\<lambda>Er g. iadd Er (scalar_mul 2 (T_real g)))
           (map (\<lambda>i. map (\<lambda>j. a i j) [0..<R]) [0..<n]) gs =
         map (\<lambda>i. map (\<lambda>j. a i j + 2 * (\<Sum>g\<leftarrow>gs. Re (g ! j ! i))) [0..<R]) [0..<n]"
  using assms
proof (induction gs arbitrary: a)
  case Nil
  then show ?case by simp
next
  case (Cons g gs)
  have g: "T_real g = map (\<lambda>i. map (\<lambda>j. Re (g ! j ! i)) [0..<R]) [0..<n]"
    using Cons.prems by (intro T_real_rect) auto
  have rest: "\<forall>g \<in> set gs. length g = R \<and> (\<forall>row \<in> set g. length row = n)"
    using Cons.prems by simp
  have "foldl (\<lambda>Er g. iadd Er (scalar_mul 2 (T_real g)))
          (map (\<lambda>i. map (\<lambda>j. a i j) [0..<R]) [0..<n]) (g # gs) =
        foldl (\<lambda>Er g. iadd Er (scalar_mul 2 (T_real g)))
          (map (\<lambda>i. map (\<lambda>j. a i j + 2 * Re (g ! j ! i)) [0..<R]) [0..<n]) gs"
    by (simp add: g iadd_scalar_mul_rect)
  also have "\<dots> = map (\<lambda>i. map (\<lambda>j. (a i j + 2 * Re (g ! j ! i)) +
        2 * (\<Sum>g\<leftarrow>gs. Re (g ! j ! i))) [0..<R]) [0..<n]"
    using Cons.IH [OF rest \<open>0 < R\<close>, of "\<lambda>i j. a i j + 2 * Re (g ! j ! i)"] .
  also have "\<dots> = map (\<lambda>i. map (\<lambda>j. a i j +
        2 * (\<Sum>g\<leftarrow>g # gs. Re (g ! j ! i))) [0..<R]) [0..<n]"
    by (simp add: algebra_simps)
  finally show ?case .
qed

lemmas script_defs =
  lwfa_script_def lwfa_setup_def calder_script_def lwfa_N_step_def dt_def T_interact_def
  L_interact_def truediv_def py_int_def spec_dt_def lwfa_constants_def calder_constants_def
  lwfa_constants_quotient_def c_def Let_def

section \<open>Claims\<close>

text \<open>
  C9. For a histogram with \<open>n\<close> bins (\<open>n + 1\<close> edges, \<open>n\<close> counts) the staircase expansion
  gives an x sequence and a y sequence of length \<open>2 n\<close> each; for every bin \<open>i\<close> the
  pairs (edges[i], counts[i]) and (edges[i+1], counts[i]) stand at the positions \<open>2 i\<close>
  and \<open>2 i + 1\<close>; every count occurs in the y sequence and nothing else does, and, when
  there is at least one bin, every edge occurs in the x sequence and nothing else does.
\<close>

theorem staircase_pairing:
  assumes "length edges = length counts + 1"
  shows "length (x_axis edges) = 2 * length counts \<and>
         length (y_axis counts) = 2 * length counts \<and>
         (\<forall>i < length counts.
            x_axis edges ! (2 * i) = edges ! i \<and> y_axis counts ! (2 * i) = counts ! i \<and>
            x_axis edges ! (2 * i + 1) = edges ! (i + 1) \<and>
            y_axis counts ! (2 * i + 1) = counts ! i) \<and>
         set (y_axis counts) = set counts \<and>
         (counts \<noteq> [] \<longrightarrow> set (x_axis edges) = set edges)"
proof -
  have len: "length (butlast edges) = length (tl edges)" by simp
  have lenc: "length (butlast edges) = length counts" using assms by simp
  have l1: "length (x_axis edges) = 2 * length counts"
    using flatten_transpose_pair_length [OF len] lenc by (simp add: x_axis_def)
  have l2: "length (y_axis counts) = 2 * length counts"
    by (simp add: y_axis_def flatten_transpose_pair_length)
  have s2: "set (y_axis counts) = set counts"
    by (simp add: y_axis_def flatten_transpose_pair_set)
  have pairs: "x_axis edges ! (2 * i) = edges ! i \<and> y_axis counts ! (2 * i) = counts ! i \<and>
        x_axis edges ! (2 * i + 1) = edges ! (i + 1) \<and> y_axis counts ! (2 * i + 1) = counts ! i"
    if i: "i < length counts" for i
  proof -
    have ib: "i < length (butlast edges)" using i lenc by simp
    have "x_axis edges ! (2 * i) = butlast edges ! i"
      unfolding x_axis_def by (rule flatten_transpose_pair_even [OF len ib])
    also have "\<dots> = edges ! i" using ib by (simp add: nth_butlast)
    finally have x0: "x_axis edges ! (2 * i) = edges ! i" .
    have "x_axis edges ! (2 * i + 1) = tl edges ! i"
      unfolding x_axis_def by (rule flatten_transpose_pair_odd [OF len ib])
    also have "\<dots> = edges ! (i + 1)" using ib by (simp add: nth_tl)
    finally have x1: "x_axis edges ! (2 * i + 1) = edges ! (i + 1)" .
    have y0: "y_axis counts ! (2 * i) = counts ! i"
      unfolding y_axis_def using i by (simp add: flatten_transpose_pair_even)
    have y1: "y_axis counts ! (2 * i + 1) = counts ! i"
      unfolding y_axis_def using i flatten_transpose_pair_odd [of counts counts i] by simp
    from x0 x1 y0 y1 show ?thesis by simp
  qed
  have s1: "set (x_axis edges) = set edges" if ne: "counts \<noteq> []"
  proof -
    have e1: "edges \<noteq> []" using assms by auto
    have "length (tl edges) = length counts" using assms by simp
    then have e2: "tl edges \<noteq> []" using ne by (cases "tl edges") auto
    show ?thesis
      unfolding x_axis_def
      using flatten_transpose_pair_set [OF len] butlast_tl_set [OF e1 e2] by simp
  qed
  from l1 l2 pairs s2 s1 show ?thesis by blast
qed

theorem staircase_pairing_witness:
  "length [0, 1, 3 :: real] = length [5, 7 :: real] + 1 \<and>
   x_axis [0, 1, 3] = [0, 1, 1, 3] \<and> y_axis [5, 7] = [5, 5, 7, 7] \<and>
   length (x_axis [0, 1, 3]) = 2 * length [5, 7 :: real] \<and>
   set (x_axis [0, 1, 3]) = set [0, 1, 3]"
  using staircase_pairing [of "[0, 1, 3]" "[5, 7]"]
  by (simp add: x_axis_def y_axis_def flatten_def)

text \<open>
  C4. The claim: at every position outside the outermost breakpoints the density is 0.
  For the single-sided profile of lwfa_script.py this fails above the ramp: with the
  script's own constants (\<open>ramp_start = 0\<close>, \<open>ramp_length = 375e-6\<close>) the position
  \<open>400e-6\<close> lies outside \<open>[ramp_start, ramp_start + ramp_length]\<close> and the density there
  is 1, the plateau.
\<close>

theorem density_zero_outside_counterexample:
  "\<not> (0 \<le> (400 / 10 ^ 6 :: real) \<and> (400 / 10 ^ 6 :: real) \<le> 0 + 375 / 10 ^ 6) \<and>
   lwfa_dens_func 0 (375 / 10 ^ 6) [400 / 10 ^ 6] [0] = [Fin 1] \<and>
   lwfa_dens_func 0 (375 / 10 ^ 6) [400 / 10 ^ 6] [0] \<noteq> [Fin 0]"
  by (simp add: lwfa_dens_func_map)

text \<open>
  C4, as amended. For every position below \<open>ramp_start\<close> the single-sided profile is
  0, and for every position at or above both \<open>ramp_start\<close> and
  \<open>ramp_start + ramp_length\<close> it is 1; for every position outside \<open>[z1, z4]\<close> the profile
  of calder_experiment.py is 0. Neither profile depends on \<open>r\<close>.
\<close>

theorem density_zero_outside:
  "(\<forall>i < length z.
      (z ! i < rs \<longrightarrow> lwfa_dens_func rs rl z r ! i = Fin 0) \<and>
      (rs \<le> z ! i \<and> rs + rl \<le> z ! i \<longrightarrow> lwfa_dens_func rs rl z r ! i = Fin 1) \<and>
      (z ! i < z1 \<or> z4 < z ! i \<longrightarrow> calder_dens_func z1 z2 z4 z r ! i = Fin 0)) \<and>
   lwfa_dens_func rs rl z r = lwfa_dens_func rs rl z r' \<and>
   calder_dens_func z1 z2 z4 z r = calder_dens_func z1 z2 z4 z r'"
  by (simp add: lwfa_dens_func_nth calder_dens_func_nth lwfa_dens_func_map calder_dens_func_map)

theorem density_zero_outside_witness:
  "lwfa_dens_func 0 (375 / 10 ^ 6) [- 1, 400 / 10 ^ 6] [0, 0] ! 0 = Fin 0 \<and>
   lwfa_dens_func 0 (375 / 10 ^ 6) [- 1, 400 / 10 ^ 6] [0, 0] ! 1 = Fin 1 \<and>
   calder_dens_func 0 (65 / 10 ^ 6) (1565 / 10 ^ 6) [- 1, 1600 / 10 ^ 6] [0, 0] ! 1 = Fin 0"
  using density_zero_outside [of "[- 1, 400 / 10 ^ 6]" 0 "375 / 10 ^ 6" "[0, 0]" 0
      "1565 / 10 ^ 6" "65 / 10 ^ 6" "[0, 0]"]
  by (simp add: lwfa_dens_func_map calder_dens_func_map)

text \<open>
  C5. Inside a rising ramp of positive length the density is the linear interpolation
  between 0 at the start and 1 at the end, it is non-decreasing in \<open>z\<close>, and a position
  exactly at a breakpoint gets the boundary value: 0 at the start, 1 at the end. For
  the profile of calder_experiment.py the breakpoints are ordered as the data model
  requires (\<open>z2 \<le> z4\<close>).
\<close>

theorem rising_ramp_interpolation:
  "(0 < rl \<longrightarrow>
      (\<forall>i < length z. rs \<le> z ! i \<and> z ! i \<le> rs + rl \<longrightarrow>
         lwfa_dens_func rs rl z r ! i = Fin ((z ! i - rs) / rl) \<and>
         (z ! i = rs \<longrightarrow> lwfa_dens_func rs rl z r ! i = Fin 0) \<and>
         (z ! i = rs + rl \<longrightarrow> lwfa_dens_func rs rl z r ! i = Fin 1) \<and>
         (\<forall>j < length z. z ! i \<le> z ! j \<and> z ! j \<le> rs + rl \<longrightarrow>
            (\<exists>a b. lwfa_dens_func rs rl z r ! i = Fin a \<and>
                   lwfa_dens_func rs rl z r ! j = Fin b \<and> a \<le> b)))) \<and>
   (z1 < z2 \<and> z2 \<le> z4 \<longrightarrow>
      (\<forall>i < length z. z1 \<le> z ! i \<and> z ! i \<le> z2 \<longrightarrow>
         calder_dens_func z1 z2 z4 z r ! i = Fin ((z ! i - z1) / (z2 - z1)) \<and>
         (z ! i = z1 \<longrightarrow> calder_dens_func z1 z2 z4 z r ! i = Fin 0) \<and>
         (z ! i = z2 \<longrightarrow> calder_dens_func z1 z2 z4 z r ! i = Fin 1) \<and>
         (\<forall>j < length z. z ! i \<le> z ! j \<and> z ! j \<le> z2 \<longrightarrow>
            (\<exists>a b. calder_dens_func z1 z2 z4 z r ! i = Fin a \<and>
                   calder_dens_func z1 z2 z4 z r ! j = Fin b \<and> a \<le> b))))"
proof -
  have single: "lwfa_dens_func rs rl z r ! i = Fin ((z ! i - rs) / rl)"
    if "0 < rl" "i < length z" "rs \<le> z ! i" "z ! i \<le> rs + rl" for i
  proof (cases "z ! i < rs + rl")
    case True
    with that show ?thesis by (simp add: lwfa_dens_func_nth np_div_def)
  next
    case False
    with that have "z ! i = rs + rl" by simp
    with that show ?thesis by (simp add: lwfa_dens_func_nth)
  qed
  have double: "calder_dens_func z1 z2 z4 z r ! i = Fin ((z ! i - z1) / (z2 - z1))"
    if "z1 < z2" "z2 \<le> z4" "i < length z" "z1 \<le> z ! i" "z ! i \<le> z2" for i
  proof (cases "z ! i < z2")
    case True
    with that show ?thesis by (simp add: calder_dens_func_nth np_div_def)
  next
    case False
    with that have "z ! i = z2" by simp
    with that show ?thesis by (simp add: calder_dens_func_nth)
  qed
  have mono: "(x - a) / d \<le> (y - a) / d" if "0 < d" "x \<le> y" for x y a d :: real
    using that by (simp add: divide_right_mono)
  show ?thesis
  proof (intro conjI impI allI)
    fix i assume "0 < rl" "i < length z" "rs \<le> z ! i \<and> z ! i \<le> rs + rl"
    then show "lwfa_dens_func rs rl z r ! i = Fin ((z ! i - rs) / rl)"
      using single by blast
  next
    fix i assume "0 < rl" "i < length z" "rs \<le> z ! i \<and> z ! i \<le> rs + rl" "z ! i = rs"
    then show "lwfa_dens_func rs rl z r ! i = Fin 0"
      using single [of i] by simp
  next
    fix i assume "0 < rl" "i < length z" "rs \<le> z ! i \<and> z ! i \<le> rs + rl" "z ! i = rs + rl"
    then show "lwfa_dens_func rs rl z r ! i = Fin 1"
      using single [of i] by simp
  next
    fix i j assume a: "0 < rl" "i < length z" "rs \<le> z ! i \<and> z ! i \<le> rs + rl"
      "j < length z" "z ! i \<le> z ! j \<and> z ! j \<le> rs + rl"
    then have "lwfa_dens_func rs rl z r ! i = Fin ((z ! i - rs) / rl)"
      and "lwfa_dens_func rs rl z r ! j = Fin ((z ! j - rs) / rl)"
      using single [of i] single [of j] by simp_all
    moreover have "(z ! i - rs) / rl \<le> (z ! j - rs) / rl"
      using a mono by simp
    ultimately show "\<exists>a b. lwfa_dens_func rs rl z r ! i = Fin a \<and>
        lwfa_dens_func rs rl z r ! j = Fin b \<and> a \<le> b"
      by blast
  next
    fix i assume "z1 < z2 \<and> z2 \<le> z4" "i < length z" "z1 \<le> z ! i \<and> z ! i \<le> z2"
    then show "calder_dens_func z1 z2 z4 z r ! i = Fin ((z ! i - z1) / (z2 - z1))"
      using double by blast
  next
    fix i assume "z1 < z2 \<and> z2 \<le> z4" "i < length z" "z1 \<le> z ! i \<and> z ! i \<le> z2" "z ! i = z1"
    then show "calder_dens_func z1 z2 z4 z r ! i = Fin 0"
      using double [of i] by simp
  next
    fix i assume "z1 < z2 \<and> z2 \<le> z4" "i < length z" "z1 \<le> z ! i \<and> z ! i \<le> z2" "z ! i = z2"
    then show "calder_dens_func z1 z2 z4 z r ! i = Fin 1"
      using double [of i] by simp
  next
    fix i j assume a: "z1 < z2 \<and> z2 \<le> z4" "i < length z" "z1 \<le> z ! i \<and> z ! i \<le> z2"
      "j < length z" "z ! i \<le> z ! j \<and> z ! j \<le> z2"
    then have "calder_dens_func z1 z2 z4 z r ! i = Fin ((z ! i - z1) / (z2 - z1))"
      and "calder_dens_func z1 z2 z4 z r ! j = Fin ((z ! j - z1) / (z2 - z1))"
      using double [of i] double [of j] by simp_all
    moreover have "(z ! i - z1) / (z2 - z1) \<le> (z ! j - z1) / (z2 - z1)"
      using a mono by simp
    ultimately show "\<exists>a b. calder_dens_func z1 z2 z4 z r ! i = Fin a \<and>
        calder_dens_func z1 z2 z4 z r ! j = Fin b \<and> a \<le> b"
      by blast
  qed
qed

theorem rising_ramp_interpolation_witness:
  "(0::real) < 4 \<and> (1::real) < 5 \<and> (5::real) \<le> 9 \<and>
   lwfa_dens_func 1 4 [1, 2, 5] [0, 0, 0] ! 1 = Fin ((2 - 1) / 4) \<and>
   lwfa_dens_func 1 4 [1, 2, 5] [0, 0, 0] = [Fin 0, Fin (1 / 4), Fin 1] \<and>
   calder_dens_func 1 5 9 [1, 2, 5] [0, 0, 0] ! 1 = Fin ((2 - 1) / (5 - 1)) \<and>
   calder_dens_func 1 5 9 [1, 2, 5] [0, 0, 0] = [Fin 0, Fin (1 / 4), Fin 1]"
  using rising_ramp_interpolation [of 4 "[1, 2, 5]" 1 "[0, 0, 0]" 1 5 9]
  by (simp add: lwfa_dens_func_map calder_dens_func_map np_div_def)

text \<open>
  C6. The claim: with \<open>z1 \<le> z2 \<le> z3 \<le> z4\<close> the profile falls linearly from 1 at \<open>z3\<close> to
  0 at \<open>z4\<close>. The function of calder_experiment.py has no \<open>z3\<close> and no falling segment:
  with \<open>z1 = 0\<close>, \<open>z2 = 65\<close>, \<open>z3 = 1000\<close>, \<open>z4 = 1565\<close> the specified profile is 53/113 at
  1300 and 0 at 1565, and the function returns 1 at both positions.
\<close>

theorem calder_profile_counterexample:
  "(0::real) \<le> 65 \<and> (65::real) \<le> 1000 \<and> (1000::real) \<le> 1565 \<and>
   spec_double_ramp 0 65 1000 1565 1300 = 53 / 113 \<and>
   spec_double_ramp 0 65 1000 1565 1565 = 0 \<and>
   calder_dens_func 0 65 1565 [1300, 1565] [0, 0] = [Fin 1, Fin 1]"
  by (simp add: spec_double_ramp_def calder_dens_func_map)

text \<open>
  C6, as amended. With \<open>z1 < z2 \<le> z4\<close> the profile of calder_experiment.py rises
  linearly from 0 at \<open>z1\<close> to 1 at \<open>z2\<close>, stays at 1 from \<open>z2\<close> to \<open>z4\<close> inclusive and is 0
  outside \<open>[z1, z4]\<close>: it is the specified double-sided ramp with \<open>z3 = z4\<close>, and up to \<open>z4\<close>
  it is the single-sided ramp with \<open>ramp_start = z1\<close> and \<open>ramp_length = z2 - z1\<close>.
\<close>

theorem calder_profile_shape:
  assumes "z1 < z2" and "z2 \<le> z4" and "i < length z"
  shows "(z ! i < z1 \<or> z4 < z ! i \<longrightarrow> calder_dens_func z1 z2 z4 z r ! i = Fin 0) \<and>
         (z1 \<le> z ! i \<and> z ! i \<le> z2 \<longrightarrow>
            calder_dens_func z1 z2 z4 z r ! i = Fin ((z ! i - z1) / (z2 - z1))) \<and>
         (z2 \<le> z ! i \<and> z ! i \<le> z4 \<longrightarrow> calder_dens_func z1 z2 z4 z r ! i = Fin 1) \<and>
         calder_dens_func z1 z2 z4 z r ! i = Fin (spec_double_ramp z1 z2 z4 z4 (z ! i)) \<and>
         (z ! i \<le> z4 \<longrightarrow>
            calder_dens_func z1 z2 z4 z r ! i = lwfa_dens_func z1 (z2 - z1) z r ! i)"
proof -
  have nz: "z2 - z1 \<noteq> 0" using assms by simp
  have a: "z ! i < z1 \<or> z4 < z ! i \<longrightarrow> calder_dens_func z1 z2 z4 z r ! i = Fin 0"
    using assms by (simp add: calder_dens_func_nth)
  have b: "z1 \<le> z ! i \<and> z ! i \<le> z2 \<longrightarrow>
      calder_dens_func z1 z2 z4 z r ! i = Fin ((z ! i - z1) / (z2 - z1))"
    using assms nz by (cases "z ! i = z2") (auto simp: calder_dens_func_nth np_div_def)
  have c: "z2 \<le> z ! i \<and> z ! i \<le> z4 \<longrightarrow> calder_dens_func z1 z2 z4 z r ! i = Fin 1"
    using assms by (auto simp: calder_dens_func_nth)
  have d: "calder_dens_func z1 z2 z4 z r ! i = Fin (spec_double_ramp z1 z2 z4 z4 (z ! i))"
    using assms nz by (auto simp: calder_dens_func_nth np_div_def spec_double_ramp_def)
  have e: "z ! i \<le> z4 \<longrightarrow>
      calder_dens_func z1 z2 z4 z r ! i = lwfa_dens_func z1 (z2 - z1) z r ! i"
    using assms by (simp add: calder_dens_func_nth lwfa_dens_func_nth)
  from a b c d e show ?thesis by blast
qed

theorem calder_profile_shape_witness:
  "(0::real) < 65 \<and> (65::real) \<le> 1565 \<and> (1::nat) < length [- 1, 13, 65, 1565, 1566 :: real] \<and>
   calder_dens_func 0 65 1565 [- 1, 13, 65, 1565, 1566] [0, 0, 0, 0, 0] ! 1 = Fin ((13 - 0) / (65 - 0)) \<and>
   calder_dens_func 0 65 1565 [- 1, 13, 65, 1565, 1566] [0, 0, 0, 0, 0] =
     [Fin 0, Fin (1 / 5), Fin 1, Fin 1, Fin 0]"
  using calder_profile_shape [of 0 65 1565 1 "[- 1, 13, 65, 1565, 1566]" "[0, 0, 0, 0, 0]"]
  by (simp add: calder_dens_func_map np_div_def)

text \<open>
  C10. The claim: a ramp of length zero produces non-finite values. The quotient by
  zero is selected only where \<open>z < ramp_start\<close> (\<open>z < z1\<close>), and these positions are
  overwritten with 0 by the mask that follows: the arrays returned for a zero-length
  ramp hold 0 and 1 only.
\<close>

theorem density_unit_interval_counterexample:
  "lwfa_dens_func 0 0 [- 1, 0, 1] [0, 0, 0] = [Fin 0, Fin 1, Fin 1] \<and>
   calder_dens_func 0 0 5 [- 1, 0, 1, 6] [0, 0, 0, 0] = [Fin 0, Fin 1, Fin 1, Fin 0] \<and>
   list_all is_finite (lwfa_dens_func 0 0 [- 1, 0, 1] [0, 0, 0]) \<and>
   list_all is_finite (calder_dens_func 0 0 5 [- 1, 0, 1, 6] [0, 0, 0, 0])"
  by (simp add: lwfa_dens_func_map calder_dens_func_map)

text \<open>
  C10, as amended. Both evaluators divide by the ramp length with no guard and raise
  nothing. For every ramp length (positive, zero or negative) and every array of
  positions they return an array of the same length whose values are finite and lie
  in \<open>[0, 1]\<close>. The quotient by a zero length is not finite, but it never reaches the
  result: a zero-length ramp returns the step from 0 to 1.
\<close>

theorem density_unit_interval:
  "length (lwfa_dens_func rs rl z r) = length z \<and>
   length (calder_dens_func z1 z2 z4 z r) = length z \<and>
   (\<forall>i < length z. \<exists>v. lwfa_dens_func rs rl z r ! i = Fin v \<and> 0 \<le> v \<and> v \<le> 1) \<and>
   (\<forall>i < length z. \<exists>v. calder_dens_func z1 z2 z4 z r ! i = Fin v \<and> 0 \<le> v \<and> v \<le> 1) \<and>
   \<not> is_finite (np_div x 0) \<and>
   (\<forall>i < length z. lwfa_dens_func rs 0 z r ! i = (if z ! i < rs then Fin 0 else Fin 1)) \<and>
   (\<forall>i < length z. calder_dens_func z1 z1 z4 z r ! i =
      (if z ! i < z1 \<or> z4 < z ! i then Fin 0 else Fin 1))"
proof -
  have single: "\<exists>v. lwfa_dens_func rs rl z r ! i = Fin v \<and> 0 \<le> v \<and> v \<le> 1"
    if i: "i < length z" for i
  proof (cases "rs \<le> z ! i \<and> z ! i < rs + rl")
    case True
    then have "rl \<noteq> 0" by auto
    moreover have "0 \<le> (z ! i - rs) / (rs + rl - rs) \<and> (z ! i - rs) / (rs + rl - rs) \<le> 1"
      using True by (intro ramp_quotient_unit) simp_all
    ultimately show ?thesis using True i by (simp add: lwfa_dens_func_nth np_div_def)
  next
    case False
    then show ?thesis using i by (auto simp: lwfa_dens_func_nth)
  qed
  have double: "\<exists>v. calder_dens_func z1 z2 z4 z r ! i = Fin v \<and> 0 \<le> v \<and> v \<le> 1"
    if i: "i < length z" for i
  proof (cases "z1 \<le> z ! i \<and> z ! i < z2")
    case True
    then have "z2 - z1 \<noteq> 0" by auto
    moreover have "0 \<le> (z ! i - z1) / (z2 - z1) \<and> (z ! i - z1) / (z2 - z1) \<le> 1"
      using True by (intro ramp_quotient_unit) simp_all
    ultimately show ?thesis using True i by (simp add: calder_dens_func_nth np_div_def)
  next
    case False
    then show ?thesis using i by (auto simp: calder_dens_func_nth)
  qed
  have l1: "length (lwfa_dens_func rs rl z r) = length z"
    by (simp add: lwfa_dens_func_map)
  have l2: "length (calder_dens_func z1 z2 z4 z r) = length z"
    by (simp add: calder_dens_func_map)
  have q: "\<not> is_finite (np_div x 0)"
    by (simp add: np_div_def)
  have s1: "\<forall>i < length z. lwfa_dens_func rs 0 z r ! i = (if z ! i < rs then Fin 0 else Fin 1)"
    by (simp add: lwfa_dens_func_nth)
  have s2: "\<forall>i < length z. calder_dens_func z1 z1 z4 z r ! i =
      (if z ! i < z1 \<or> z4 < z ! i then Fin 0 else Fin 1)"
    by (simp add: calder_dens_func_nth)
  from l1 l2 single double q s1 s2 show ?thesis by blast
qed

theorem density_unit_interval_witness:
  "lwfa_dens_func 0 0 [- 1, 0, 1] [0, 0, 0] ! 2 = Fin 1 \<and>
   length (lwfa_dens_func 0 (- 3) [- 5, - 1, 0, 1] [0, 0, 0, 0]) = 4 \<and>
   lwfa_dens_func 0 (- 3) [- 5, - 1, 0, 1] [0, 0, 0, 0] = [Fin 0, Fin 0, Fin 1, Fin 1] \<and>
   np_div 2 0 = PInf"
  using density_unit_interval [of 0 "- 3" "[- 5, - 1, 0, 1]" "[0, 0, 0, 0]" 0 0 5 2]
  by (simp add: lwfa_dens_func_map np_div_def)

text \<open>
  C7. The field slice takes the real part of mode 0 as the base and adds 2 times the
  real part of every further mode: for grids of one shape (\<open>R\<close> rows of length \<open>n\<close>) the
  entry \<open>(i, j)\<close> of the transposed result is the real part of entry \<open>(j, i)\<close> of mode 0
  plus twice the sum of the real parts of that entry over the modes 1, 2, ... With the
  real parts 1, 1 in mode 0 and 2, 2 in mode 1 the result is 5, 5, whatever the
  imaginary parts are.
\<close>

theorem field_slice_combination:
  "(\<forall>g \<in> set (g0 # gs). length g = R \<and> (\<forall>row \<in> set g. length row = n)) \<and> i < n \<and> j < R \<longrightarrow>
     (\<exists>Er. combine_Er (g0 # gs) = Inr Er \<and> length Er = n \<and> length (Er ! i) = R \<and>
        Er ! i ! j = Re (g0 ! j ! i) + 2 * (\<Sum>g\<leftarrow>gs. Re (g ! j ! i)))"
proof (intro impI)
  assume a: "(\<forall>g \<in> set (g0 # gs). length g = R \<and> (\<forall>row \<in> set g. length row = n)) \<and>
    i < n \<and> j < R"
  then have R: "0 < R" by simp
  have g0: "T_real g0 = map (\<lambda>i. map (\<lambda>j. Re (g0 ! j ! i)) [0..<R]) [0..<n]"
    using a R by (intro T_real_rect) auto
  have gs: "\<forall>g \<in> set gs. length g = R \<and> (\<forall>row \<in> set g. length row = n)"
    using a by simp
  have "combine_Er (g0 # gs) =
      Inr (map (\<lambda>i. map (\<lambda>j. Re (g0 ! j ! i) + 2 * (\<Sum>g\<leftarrow>gs. Re (g ! j ! i))) [0..<R]) [0..<n])"
    by (simp add: combine_Er_def g0 foldl_modes [OF gs R])
  then show "\<exists>Er. combine_Er (g0 # gs) = Inr Er \<and> length Er = n \<and> length (Er ! i) = R \<and>
        Er ! i ! j = Re (g0 ! j ! i) + 2 * (\<Sum>g\<leftarrow>gs. Re (g ! j ! i))"
    using a by simp
qed

theorem field_slice_combination_witness:
  "combine_Er [ [ [Complex 1 7], [Complex 1 0] ], [ [Complex 2 3], [Complex 2 (- 1)] ] ] = Inr [ [5, 5] ] \<and>
   (\<exists>Er. combine_Er [ [ [Complex 1 7], [Complex 1 0] ], [ [Complex 2 3], [Complex 2 (- 1)] ] ] = Inr Er \<and>
      Er ! 0 ! 1 = 1 + 2 * 2)"
  using field_slice_combination [of "[ [Complex 1 7], [Complex 1 0] ]"
      "[ [ [Complex 2 3], [Complex 2 (- 1)] ] ]" 2 1 0 1]
  by (simp add: combine_Er_def T_real_def iadd_def scalar_mul_def)

text \<open>
  C2. Where \<open>Nz\<close> is not 0 the timestep of either script is exactly
  \<open>(zmax - zmin) / Nz / c\<close>; it is this value, and no other, that every \<open>Simulation\<close>
  constructor call of lwfa_script.py and of calder_experiment.py receives. With \<open>Nz = 0\<close>
  the division raises and no call is made.
\<close>

theorem timestep_derivation:
  "(Nz cfg \<noteq> 0 \<longrightarrow> dt cfg = Inr ((zmax cfg - zmin cfg) / real_of_int (Nz cfg) / c)) \<and>
   (Nz cfg = 0 \<longrightarrow> dt cfg = Inl ZeroDivisionError) \<and>
   (Nz lc \<noteq> 0 \<and> v_window lc \<noteq> 0 \<longrightarrow>
      (\<exists>rest. fst (lwfa_script quot lc) =
         Simulation (Nz lc) (zmax lc) (Nr lc) (rmax lc) (Nm lc)
           (spec_dt (zmin lc) (zmax lc) (Nz lc)) (zmin lc) False # rest)) \<and>
   (Nz cc \<noteq> 0 \<longrightarrow>
      (\<exists>rest. fst (calder_script cc) =
         Simulation (Nz cc) (zmax cc) (Nr cc) (rmax cc) (Nm cc)
           (spec_dt (zmin cc) (zmax cc) (Nz cc)) (zmin cc) True # rest)) \<and>
   (Simulation a1 a2 a3 a4 a5 t a6 a7 \<in> set (fst (lwfa_script quot lc)) \<longrightarrow>
      t = spec_dt (zmin lc) (zmax lc) (Nz lc)) \<and>
   (Simulation a1 a2 a3 a4 a5 t a6 a7 \<in> set (fst (calder_script cc)) \<longrightarrow>
      t = spec_dt (zmin cc) (zmax cc) (Nz cc))"
proof -
  have d1: "Nz cfg \<noteq> 0 \<longrightarrow> dt cfg = Inr ((zmax cfg - zmin cfg) / real_of_int (Nz cfg) / c)"
    using dt_value [of cfg] by (simp add: spec_dt_def)
  have d2: "Nz cfg = 0 \<longrightarrow> dt cfg = Inl ZeroDivisionError"
    by (simp add: dt_raises)
  have l1: "\<exists>rest. fst (lwfa_script quot lc) =
         Simulation (Nz lc) (zmax lc) (Nr lc) (rmax lc) (Nm lc)
           (spec_dt (zmin lc) (zmax lc) (Nz lc)) (zmin lc) False # rest"
    if "Nz lc \<noteq> 0 \<and> v_window lc \<noteq> 0"
    using lwfa_script_calls [of lc quot] that by (auto simp: lwfa_setup_def)
  have c1: "\<exists>rest. fst (calder_script cc) =
         Simulation (Nz cc) (zmax cc) (Nr cc) (rmax cc) (Nm cc)
           (spec_dt (zmin cc) (zmax cc) (Nz cc)) (zmin cc) True # rest"
    if "Nz cc \<noteq> 0"
    using that by (simp add: calder_script_def dt_value)
  have l2: "t = spec_dt (zmin lc) (zmax lc) (Nz lc)"
    if m: "Simulation a1 a2 a3 a4 a5 t a6 a7 \<in> set (fst (lwfa_script quot lc))"
  proof (cases "Nz lc = 0 \<or> v_window lc = 0")
    case True
    then show ?thesis using m lwfa_script_module_error [of lc quot] by simp
  next
    case False
    then obtain rest where
      "fst (lwfa_script quot lc) = lwfa_setup lc (spec_dt (zmin lc) (zmax lc) (Nz lc)) @ rest"
      and "set rest \<subseteq> range gather_grid \<union> {Plot2D, savefig} \<union> range step"
      using lwfa_script_calls [of lc quot] by auto
    then show ?thesis using m by (auto simp: lwfa_setup_def split: if_splits)
  qed
  have c2: "t = spec_dt (zmin cc) (zmax cc) (Nz cc)"
    if m: "Simulation a1 a2 a3 a4 a5 t a6 a7 \<in> set (fst (calder_script cc))"
  proof (cases "Nz cc = 0")
    case True
    then show ?thesis using m by (simp add: calder_script_def dt_raises)
  next
    case False
    then show ?thesis using m by (auto simp: calder_script_def dt_value split: if_splits)
  qed
  from d1 d2 l1 c1 l2 c2 show ?thesis by blast
qed

theorem timestep_derivation_witness:
  "Nz lwfa_constants \<noteq> 0 \<and> v_window lwfa_constants \<noteq> 0 \<and> Nz calder_constants \<noteq> 0 \<and>
   dt lwfa_constants = Inr ((30 / 10 ^ 6 - (- 70 / 10 ^ 6)) / 4096 / c) \<and>
   hd (fst (lwfa_script lwfa_constants_quotient lwfa_constants)) =
     Simulation 4096 (30 / 10 ^ 6) 256 (30 / 10 ^ 6) 2
       (spec_dt (- 70 / 10 ^ 6) (30 / 10 ^ 6) 4096) (- 70 / 10 ^ 6) False \<and>
   hd (fst (calder_script calder_constants)) =
     Simulation 5000 (20 / 10 ^ 6) 600 (11459 / 10 ^ 8) 7
       (spec_dt (- 4111 / 10 ^ 8) (20 / 10 ^ 6) 5000) (- 4111 / 10 ^ 8) True"
  using timestep_derivation [where cfg = lwfa_constants and lc = lwfa_constants
      and quot = lwfa_constants_quotient and cc = calder_constants
      and ?a1.0 = 0 and ?a2.0 = 0 and ?a3.0 = 0 and ?a4.0 = 0 and ?a5.0 = 0 and t = 0
      and ?a6.0 = 0 and ?a7.0 = True]
  by (auto simp: lwfa_constants_def calder_constants_def c_def)




text \<open>
  C1. The claim: with \<open>use_restart\<close> set, the species-load call is not made. Both scripts
  make it before they look at \<open>use_restart\<close>: lwfa_script.py calls \<open>add_new_species\<close> and
  calder_experiment.py passes the particle parameters to the \<open>Simulation\<close> constructor,
  also in the scripts' own configurations with \<open>use_restart\<close> switched on.
\<close>

theorem restart_species_load_counterexample:
  "use_restart (lwfa_constants\<lparr>use_restart := True\<rparr>) \<and>
   add_new_species \<in> set (fst (lwfa_script lwfa_constants_quotient (lwfa_constants\<lparr>use_restart := True\<rparr>))) \<and>
   use_restart (calder_constants\<lparr>use_restart := True\<rparr>) \<and>
   list_ex loads_species (fst (calder_script (calder_constants\<lparr>use_restart := True\<rparr>)))"
  by (simp add: script_defs)

text \<open>
  C1, as amended. With \<open>use_restart\<close> set, a run whose module-level divisions succeed loads
  the plasma species once (\<open>add_new_species\<close> in lwfa_script.py, the \<open>Simulation\<close>
  constructor with the particle parameters in calder_experiment.py), then loads the most
  recent checkpoint with \<open>restart_from_checkpoint\<close>, once, before the moving window is
  set; no later call loads species. The species-load calls of a run are the same with
  \<open>use_restart\<close> set and unset.
\<close>

theorem restart_loads_checkpoint_after_species:
  "(use_restart lc \<and> Nz lc \<noteq> 0 \<and> v_window lc \<noteq> 0 \<longrightarrow>
      (\<exists>rest. fst (lwfa_script quot lc) =
         [Simulation (Nz lc) (zmax lc) (Nr lc) (rmax lc) (Nm lc)
            (spec_dt (zmin lc) (zmax lc) (Nz lc)) (zmin lc) False,
          GaussianLaser, add_laser_pulse, add_new_species, restart_from_checkpoint,
          set_moving_window (v_window lc)] @ rest \<and>
         \<not> list_ex loads_species rest \<and> restart_from_checkpoint \<notin> set rest)) \<and>
   (use_restart cc \<and> Nz cc \<noteq> 0 \<longrightarrow>
      (\<exists>rest. fst (calder_script cc) =
         [Simulation (Nz cc) (zmax cc) (Nr cc) (rmax cc) (Nm cc)
            (spec_dt (zmin cc) (zmax cc) (Nz cc)) (zmin cc) True,
          add_laser, restart_from_checkpoint, set_moving_window (v_window cc)] @ rest \<and>
         \<not> list_ex loads_species rest \<and> restart_from_checkpoint \<notin> set rest)) \<and>
   filter loads_species (fst (lwfa_script quot (lc\<lparr>use_restart := b\<rparr>))) =
     filter loads_species (fst (lwfa_script quot lc)) \<and>
   filter loads_species (fst (calder_script (cc\<lparr>use_restart := b\<rparr>))) =
     filter loads_species (fst (calder_script cc))"
proof -
  have l: "\<exists>rest. fst (lwfa_script quot lc) =
         [Simulation (Nz lc) (zmax lc) (Nr lc) (rmax lc) (Nm lc)
            (spec_dt (zmin lc) (zmax lc) (Nz lc)) (zmin lc) False,
          GaussianLaser, add_laser_pulse, add_new_species, restart_from_checkpoint,
          set_moving_window (v_window lc)] @ rest \<and>
         \<not> list_ex loads_species rest \<and> restart_from_checkpoint \<notin> set rest"
    if h: "use_restart lc \<and> Nz lc \<noteq> 0 \<and> v_window lc \<noteq> 0"
  proof -
    obtain rest where r: "fst (lwfa_script quot lc) =
        lwfa_setup lc (spec_dt (zmin lc) (zmax lc) (Nz lc)) @ rest"
      and s: "set rest \<subseteq> range gather_grid \<union> {Plot2D, savefig} \<union> range step"
      using lwfa_script_calls [of lc quot] h by auto
    have n1: "\<not> list_ex loads_species rest"
      using s by (auto simp: list_ex_iff)
    have n2: "restart_from_checkpoint \<notin> set rest"
      using s by auto
    show ?thesis
      using h r n1 n2 by (auto simp: lwfa_setup_def list_ex_iff)
  qed
  have k: "\<exists>rest. fst (calder_script cc) =
         [Simulation (Nz cc) (zmax cc) (Nr cc) (rmax cc) (Nm cc)
            (spec_dt (zmin cc) (zmax cc) (Nz cc)) (zmin cc) True,
          add_laser, restart_from_checkpoint, set_moving_window (v_window cc)] @ rest \<and>
         \<not> list_ex loads_species rest \<and> restart_from_checkpoint \<notin> set rest"
    if h: "use_restart cc \<and> Nz cc \<noteq> 0"
    using h by (simp add: calder_script_def dt_value)
  have dt_eq: "dt (x\<lparr>use_restart := b\<rparr>) = dt x" for x :: "'a config_scheme"
    by (simp add: dt_def)
  have T_eq: "T_interact (lc\<lparr>use_restart := b\<rparr>) = T_interact lc"
    by (simp add: T_interact_def L_interact_def)
  have setup_eq: "filter loads_species (lwfa_setup (lc\<lparr>use_restart := b\<rparr>) d) =
      filter loads_species (lwfa_setup lc d)" for d
    by (simp add: lwfa_setup_def)
  have fl: "filter loads_species (fst (lwfa_script quot (lc\<lparr>use_restart := b\<rparr>))) =
     filter loads_species (fst (lwfa_script quot lc))"
    by (simp add: lwfa_script_def dt_eq T_eq setup_eq Let_def split: sum.splits)
  have fc: "filter loads_species (fst (calder_script (cc\<lparr>use_restart := b\<rparr>))) =
     filter loads_species (fst (calder_script cc))"
    by (simp add: calder_script_def dt_eq split: sum.splits)
  from l k fl fc show ?thesis by blast
qed

theorem restart_loads_checkpoint_after_species_witness:
  "use_restart (lwfa_constants\<lparr>use_restart := True\<rparr>) \<and>
   Nz (lwfa_constants\<lparr>use_restart := True\<rparr>) \<noteq> 0 \<and>
   v_window (lwfa_constants\<lparr>use_restart := True\<rparr>) \<noteq> 0 \<and>
   take 6 (fst (lwfa_script lwfa_constants_quotient (lwfa_constants\<lparr>use_restart := True\<rparr>))) =
     [Simulation 4096 (30 / 10 ^ 6) 256 (30 / 10 ^ 6) 2
        (spec_dt (- 70 / 10 ^ 6) (30 / 10 ^ 6) 4096) (- 70 / 10 ^ 6) False,
      GaussianLaser, add_laser_pulse, add_new_species, restart_from_checkpoint,
      set_moving_window c] \<and>
   filter loads_species (fst (lwfa_script lwfa_constants_quotient (lwfa_constants\<lparr>use_restart := True\<rparr>))) =
     filter loads_species (fst (lwfa_script lwfa_constants_quotient lwfa_constants))"
  using restart_loads_checkpoint_after_species
    [where lc = "lwfa_constants\<lparr>use_restart := True\<rparr>" and quot = lwfa_constants_quotient
      and cc = "calder_constants\<lparr>use_restart := True\<rparr>" and b = True]
  by (simp add: script_defs)

text \<open>
  C8. Particle tracking is enabled on fresh runs only. With \<open>use_restart\<close> set, no \<open>track\<close>
  call is made, whatever \<open>track_electrons\<close> is and whichever engine call raises; the same
  holds with \<open>track_electrons\<close> unset. With \<open>track_electrons\<close> set and \<open>use_restart\<close> unset,
  a run whose module-level divisions succeed makes the \<open>track\<close> call once, and no \<open>step\<close>
  call stands before it; whichever engine call raises, a \<open>step\<close> call is made only after
  the \<open>track\<close> call.
\<close>

theorem tracking_only_on_fresh_runs:
  "(use_restart lc \<or> \<not> track_electrons lc \<longrightarrow>
      track \<notin> set (issued raises (fst (lwfa_script quot lc)))) \<and>
   (use_restart cc \<or> \<not> track_electrons cc \<longrightarrow>
      track \<notin> set (issued raises (fst (calder_script cc)))) \<and>
   (track_electrons lc \<and> \<not> use_restart lc \<and> Nz lc \<noteq> 0 \<and> v_window lc \<noteq> 0 \<longrightarrow>
      (\<exists>pre post. fst (lwfa_script quot lc) = pre @ track # post \<and>
         \<not> list_ex is_step pre \<and> track \<notin> set pre \<and> track \<notin> set post)) \<and>
   (track_electrons cc \<and> \<not> use_restart cc \<and> Nz cc \<noteq> 0 \<longrightarrow>
      (\<exists>pre post. fst (calder_script cc) = pre @ track # post \<and>
         \<not> list_ex is_step pre \<and> track \<notin> set pre \<and> track \<notin> set post \<and>
         list_ex is_step post)) \<and>
   (track_electrons lc \<and> \<not> use_restart lc \<and>
    step n \<in> set (issued raises (fst (lwfa_script quot lc))) \<longrightarrow>
      track \<in> set (issued raises (fst (lwfa_script quot lc)))) \<and>
   (track_electrons cc \<and> \<not> use_restart cc \<and>
    step n \<in> set (issued raises (fst (calder_script cc))) \<longrightarrow>
      track \<in> set (issued raises (fst (calder_script cc))))"
proof -
  have ln: "track \<notin> set (fst (lwfa_script quot lc))" if h: "use_restart lc \<or> \<not> track_electrons lc"
  proof (cases "Nz lc = 0 \<or> v_window lc = 0")
    case True
    then show ?thesis using lwfa_script_module_error [of lc quot] by simp
  next
    case False
    then obtain rest where "fst (lwfa_script quot lc) =
        lwfa_setup lc (spec_dt (zmin lc) (zmax lc) (Nz lc)) @ rest"
      and "set rest \<subseteq> range gather_grid \<union> {Plot2D, savefig} \<union> range step"
      using lwfa_script_calls [of lc quot] by auto
    then show ?thesis using h by (auto simp: lwfa_setup_def)
  qed
  have cn: "track \<notin> set (fst (calder_script cc))" if h: "use_restart cc \<or> \<not> track_electrons cc"
    using h by (auto simp: calder_script_def split: sum.splits)
  have lp: "\<exists>pre post. fst (lwfa_script quot lc) = pre @ track # post \<and>
         \<not> list_ex is_step pre \<and> track \<notin> set pre \<and> track \<notin> set post"
    if h: "track_electrons lc \<and> \<not> use_restart lc \<and> Nz lc \<noteq> 0 \<and> v_window lc \<noteq> 0"
  proof -
    obtain rest where r: "fst (lwfa_script quot lc) =
        lwfa_setup lc (spec_dt (zmin lc) (zmax lc) (Nz lc)) @ rest"
      and s: "set rest \<subseteq> range gather_grid \<union> {Plot2D, savefig} \<union> range step"
      using lwfa_script_calls [of lc quot] h by auto
    let ?pre = "[Simulation (Nz lc) (zmax lc) (Nr lc) (rmax lc) (Nm lc)
        (spec_dt (zmin lc) (zmax lc) (Nz lc)) (zmin lc) False,
        GaussianLaser, add_laser_pulse, add_new_species]"
    let ?post = "[set_moving_window (v_window lc),
        FieldDiagnostic (diag_period lc), ParticleDiagnostic (diag_period lc)]
        @ (if save_checkpoints lc then [set_periodic_checkpoint (checkpoint_period lc)] else [])
        @ rest"
    have "fst (lwfa_script quot lc) = ?pre @ track # ?post"
      using h r by (simp add: lwfa_setup_def)
    moreover have "\<not> list_ex is_step ?pre \<and> track \<notin> set ?pre" by simp
    moreover have "track \<notin> set ?post" using s by auto
    ultimately show ?thesis by blast
  qed
  have cp: "\<exists>pre post. fst (calder_script cc) = pre @ track # post \<and>
         \<not> list_ex is_step pre \<and> track \<notin> set pre \<and> track \<notin> set post \<and>
         list_ex is_step post"
    if h: "track_electrons cc \<and> \<not> use_restart cc \<and> Nz cc \<noteq> 0"
  proof -
    let ?pre = "[Simulation (Nz cc) (zmax cc) (Nr cc) (rmax cc) (Nm cc)
        (spec_dt (zmin cc) (zmax cc) (Nz cc)) (zmin cc) True, add_laser]"
    let ?post = "[set_moving_window (v_window cc),
        FieldDiagnostic (diag_period cc), ParticleDiagnostic (diag_period cc)]
        @ (if save_checkpoints cc then [set_periodic_checkpoint (checkpoint_period cc)] else [])
        @ [step (N_step cc)]"
    have "fst (calder_script cc) = ?pre @ track # ?post"
      using h by (simp add: calder_script_def dt_value)
    moreover have "\<not> list_ex is_step ?pre \<and> track \<notin> set ?pre" by simp
    moreover have "track \<notin> set ?post \<and> list_ex is_step ?post" by simp
    ultimately show ?thesis by blast
  qed
  have ls: "track \<in> set (issued raises (fst (lwfa_script quot lc)))"
    if h: "track_electrons lc \<and> \<not> use_restart lc \<and>
      step n \<in> set (issued raises (fst (lwfa_script quot lc)))"
  proof (cases "Nz lc = 0 \<or> v_window lc = 0")
    case True
    then show ?thesis using h lwfa_script_module_error [of lc quot] by simp
  next
    case False
    then obtain pre post where "fst (lwfa_script quot lc) = pre @ track # post"
      and "\<not> list_ex is_step pre"
      using lp h by blast
    then show ?thesis using h issued_step_after_track by blast
  qed
  have cs: "track \<in> set (issued raises (fst (calder_script cc)))"
    if h: "track_electrons cc \<and> \<not> use_restart cc \<and>
      step n \<in> set (issued raises (fst (calder_script cc)))"
  proof (cases "Nz cc = 0")
    case True
    then show ?thesis using h by (simp add: calder_script_def dt_raises)
  next
    case False
    then obtain pre post where "fst (calder_script cc) = pre @ track # post"
      and "\<not> list_ex is_step pre"
      using cp h by blast
    then show ?thesis using h issued_step_after_track by blast
  qed
  have n1: "use_restart lc \<or> \<not> track_electrons lc \<longrightarrow>
      track \<notin> set (issued raises (fst (lwfa_script quot lc)))"
    using ln issued_subset by blast
  have n2: "use_restart cc \<or> \<not> track_electrons cc \<longrightarrow>
      track \<notin> set (issued raises (fst (calder_script cc)))"
    using cn issued_subset by blast
  from n1 n2 lp cp ls cs show ?thesis by blast
qed

theorem tracking_only_on_fresh_runs_witness:
  "track_electrons lwfa_constants \<and> \<not> use_restart lwfa_constants \<and>
   Nz lwfa_constants \<noteq> 0 \<and> v_window lwfa_constants \<noteq> 0 \<and>
   take 5 (fst (lwfa_script lwfa_constants_quotient lwfa_constants)) =
     [Simulation 4096 (30 / 10 ^ 6) 256 (30 / 10 ^ 6) 2
        (spec_dt (- 70 / 10 ^ 6) (30 / 10 ^ 6) 4096) (- 70 / 10 ^ 6) False,
      GaussianLaser, add_laser_pulse, add_new_species, track] \<and>
   use_restart (lwfa_constants\<lparr>use_restart := True\<rparr>) \<and>
   track \<notin> set (issued (\<lambda>x. x = savefig)
     (fst (lwfa_script lwfa_constants_quotient (lwfa_constants\<lparr>use_restart := True\<rparr>)))) \<and>
   track \<notin> set (fst (calder_script calder_constants))"
  using tracking_only_on_fresh_runs [where lc = lwfa_constants and raises = "\<lambda>x. False"
      and quot = lwfa_constants_quotient and cc = calder_constants and n = 0]
    tracking_only_on_fresh_runs [where lc = "lwfa_constants\<lparr>use_restart := True\<rparr>"
      and raises = "\<lambda>x. x = savefig" and quot = lwfa_constants_quotient
      and cc = "calder_constants\<lparr>track_electrons := True\<rparr>" and n = 0]
  by (simp add: script_defs)


end
